theory Spec2Isabelle
  imports Complex_Main
begin

section \<open>Numbers\<close>

text \<open>
  The module computes with Python integers and with IEEE doubles (Python floats and
  numpy \<open>float64\<close> arrays). Integers are modelled as \<open>int\<close> and doubles as exact
  \<open>real\<close> numbers: every arithmetic operation is taken without rounding error, and the
  \<open>int32\<close>/\<open>int64\<close> buffers of numpy are taken wide enough for the values stored in
  them. A division written \<open>/\<close> in the source is the true division of Python 3.
\<close>

text \<open>
  Conversion of a float to an integer (\<open>int(x)\<close>, \<open>np.int32(x)\<close>, \<open>np.int64(x)\<close>,
  \<open>x.astype(int)\<close>, \<open>numpy.array(x, int)\<close>): the fractional part is dropped, so
  the value moves toward zero.
\<close>

definition int_trunc :: "real \<Rightarrow> int" where
  "int_trunc x = (if 0 \<le> x then \<lfloor>x\<rfloor> else \<lceil>x\<rceil>)"

text \<open>\<open>numpy.round\<close> and \<open>numpy.around\<close>: to the nearest integer, a half to the even one.\<close>

definition np_round :: "real \<Rightarrow> int" where
  "np_round x =
     (let f = \<lfloor>x\<rfloor>; d = x - of_int f
      in if d < 1 / 2 then f else if 1 / 2 < d then f + 1 else if even f then f else f + 1)"

section \<open>Dates\<close>

text \<open>
  The fields that the conversions read from a 'datetime-like' object, and the two classes
  of objects they build: Python's own \<open>datetime.datetime\<close> (imported as
  \<open>real_datetime\<close>) and the 'phony' \<open>netcdftime.datetime\<close>, which also carries the
  day of the week and the day of the year.
\<close>

record datetime_like =
  year :: int
  month :: int
  day :: int
  hour :: int
  minute :: int
  second :: int
  microsecond :: int

datatype date_obj =
    real_datetime datetime_like
  | datetime datetime_like int int

datatype error =
    ImpossibleDate
  | UnknownCalendar
  | JulianDayNegative
  | NoLeapDay
  | Only30Days
  | EmptyReduction
  | DatetimeOutOfRange
  | IndexError
  | TimesBeforeFirst
  | TimesAfterLast
  | TimesNotFound
  | BadSelect
  | UnboundLocalError

section \<open>Date to Julian Day\<close>

text \<open>
  \<open>JulianDayFromDate\<close>, element by element: the time of day folded into the day
  (line 79), the shift of January and February to months 13 and 14 of the year before
  (lines 82-84), the century \<open>A\<close> (line 86) and the day count before the Gregorian
  correction (lines 91-92).
\<close>

definition day_fraction :: "datetime_like \<Rightarrow> real" where
  "day_fraction d =
     of_int (day d) + of_int (hour d) / 24 + of_int (minute d) / 1440
       + (of_int (second d) + of_int (microsecond d) / 1000000) / 86400"

definition meeus_month :: "datetime_like \<Rightarrow> int" where
  "meeus_month d = (if month d < 3 then month d + 12 else month d)"

definition meeus_year :: "datetime_like \<Rightarrow> int" where
  "meeus_year d = (if month d < 3 then year d - 1 else year d)"

definition century_A :: "datetime_like \<Rightarrow> int" where
  "century_A d = int_trunc (of_int (meeus_year d) / 100)"

definition julian_jd :: "datetime_like \<Rightarrow> real" where
  "julian_jd d =
     365 * of_int (meeus_year d)
       + of_int (int_trunc (0.25 * of_int (meeus_year d) + 2000))
       + of_int (int_trunc (30.6001 * of_int (meeus_month d + 1)))
       + day_fraction d + 1718994.5"

definition gregorian_B :: "datetime_like \<Rightarrow> real" where
  "gregorian_B d = of_int (2 - century_A d + int_trunc (of_int (century_A d) / 4))"

text \<open>
  The whole function on a batch of dates (lines 97-116). The branch of the mixed calendar
  is chosen once for the batch, from its smallest and its largest day count;
  \<open>np.min\<close> of an empty array raises.
\<close>

definition JulianDayFromDate_array :: "datetime_like list \<Rightarrow> string \<Rightarrow> error + real list" where
  "JulianDayFromDate_array date calendar =
     (let jd = map julian_jd date
      in if calendar = ''standard'' \<or> calendar = ''gregorian'' then
           (if jd = [] then Inl EmptyReduction
            else if 2299170.5 \<le> Min (set jd) then Inr (map (\<lambda>d. julian_jd d + gregorian_B d) date)
            else if Max (set jd) < 2299160.5 then Inr (map (\<lambda>d. julian_jd d + 0) date)
            else Inl ImpossibleDate)
         else if calendar = ''proleptic_gregorian'' then
           Inr (map (\<lambda>d. julian_jd d + gregorian_B d) date)
         else if calendar = ''julian'' then Inr (map (\<lambda>d. julian_jd d + 0) date)
         else Inl UnknownCalendar)"

text \<open>A scalar argument is wrapped into a batch of one and the first result is returned.\<close>

definition JulianDayFromDate :: "datetime_like \<Rightarrow> string \<Rightarrow> error + real" where
  "JulianDayFromDate d calendar = map_sum id hd (JulianDayFromDate_array [d] calendar)"

section \<open>Julian Day to date\<close>

text \<open>
  Python's \<open>s in t\<close> on two strings tests whether \<open>s\<close> occurs in \<open>t\<close> as a
  substring.
\<close>

fun str_startswith :: "string \<Rightarrow> string \<Rightarrow> bool" where
  "str_startswith t [] = True"
| "str_startswith [] (c # s) = False"
| "str_startswith (b # t) (c # s) = (b = c \<and> str_startswith t s)"

fun str_in :: "string \<Rightarrow> string \<Rightarrow> bool" where
  "str_in s [] = (s = [])"
| "str_in s (c # t) = (str_startswith (c # t) s \<or> str_in s t)"

text \<open>
  The constructor of Python's \<open>datetime.datetime\<close> (standard library) accepts the
  years 1 to 9999 and the days of the proleptic Gregorian calendar, and raises
  \<open>ValueError\<close> otherwise. The constructor of \<open>netcdftime.datetime\<close> stores its
  arguments.
\<close>

definition days_in_month :: "int \<Rightarrow> int \<Rightarrow> int" where
  "days_in_month y m =
     (if m = 2 then (if y mod 4 = 0 \<and> (y mod 100 \<noteq> 0 \<or> y mod 400 = 0) then 29 else 28)
      else if m = 4 \<or> m = 6 \<or> m = 9 \<or> m = 11 then 30 else 31)"

definition new_real_datetime :: "datetime_like \<Rightarrow> error + date_obj" where
  "new_real_datetime d =
     (if 1 \<le> year d \<and> year d \<le> 9999 \<and> 1 \<le> month d \<and> month d \<le> 12
         \<and> 1 \<le> day d \<and> day d \<le> days_in_month (year d) (month d)
         \<and> 0 \<le> hour d \<and> hour d \<le> 23 \<and> 0 \<le> minute d \<and> minute d \<le> 59
         \<and> 0 \<le> second d \<and> second d \<le> 59 \<and> 0 \<le> microsecond d \<and> microsecond d \<le> 999999
      then Inr (real_datetime d) else Inl DatetimeOutOfRange)"

fun sum_map :: "('a \<Rightarrow> error + 'b) \<Rightarrow> 'a list \<Rightarrow> error + 'b list" where
  "sum_map f [] = Inr []"
| "sum_map f (x # xs) =
     (case f x of Inl e \<Rightarrow> Inl e
      | Inr y \<Rightarrow> (case sum_map f xs of Inl e \<Rightarrow> Inl e | Inr ys \<Rightarrow> Inr (y # ys)))"

text \<open>
  \<open>DateFromJulianDay\<close>, element by element. \<open>julian_Z\<close> and \<open>julian_F\<close> are the day
  and the fraction of the day (lines 245-246), \<open>julian_A\<close> the day after the century
  correction (lines 247-265).
\<close>

definition julian_Z :: "real \<Rightarrow> int" where
  "julian_Z julian = np_round (julian + 0.00005)"

definition julian_F :: "real \<Rightarrow> real" where
  "julian_F julian = julian + 0.5 - of_int (julian_Z julian)"

definition gregorian_A :: "int \<Rightarrow> int" where
  "gregorian_A Z =
     (let alpha = int_trunc (((of_int Z - 1867216) - 0.25) / 36524.25)
      in Z + 1 + alpha - int_trunc (0.25 * of_int alpha))"

definition julian_A :: "string \<Rightarrow> real \<Rightarrow> int" where
  "julian_A calendar julian =
     (if calendar = ''standard'' \<or> calendar = ''gregorian'' then
        (if julian < 2299160.5 then julian_Z julian else gregorian_A (julian_Z julian))
      else if calendar = ''proleptic_gregorian'' then gregorian_A (julian_Z julian)
      else julian_Z julian)"

text \<open>
  Lines 270-328: the fields of the date, with \<open>dayofwk\<close> (line 241; \<open>np.fmod\<close> is
  the remainder of the day number, which is not negative here) and \<open>dayofyr\<close>.
\<close>

definition date_fields :: "string \<Rightarrow> real \<Rightarrow> datetime_like \<times> int \<times> int" where
  "date_fields calendar julian =
     (let dayofwk = int_trunc (julian + 1.5) mod 7;
          Z = julian_Z julian;
          F = julian_F julian;
          B = julian_A calendar julian + 1524;
          C = int_trunc (6680 + ((of_int B - 2439870) - 122.1) / 365.25);
          D = 365 * C + int_trunc (0.25 * of_int C);
          E = int_trunc (of_int (B - D) / 30.6001);
          day = max 1 (of_int (B - D - int_trunc (30.6001 * of_int E)) + F);
          nday = B - D - 123;
          dayofyr = (if nday \<le> 305 then nday + 60 else nday - 305);
          month = (if 12 < E - 1 then E - 1 - 12 else E - 1);
          year0 = (if 2 < month then C - 4715 - 1 else C - 4715);
          year = (if year0 \<le> 0 then year0 - 1 else year0);
          leap0 = (year mod 4 = 0);
          leap = (if calendar = ''proleptic_gregorian'' then
                    leap0 \<and> \<not> (year mod 100 = 0 \<and> year mod 400 \<noteq> 0)
                  else if calendar = ''standard'' \<or> calendar = ''gregorian'' then
                    leap0 \<and> \<not> (year mod 100 = 0 \<and> year mod 400 \<noteq> 0 \<and> julian < 2299160.5)
                  else leap0);
          dayofyr = (if leap \<and> 2 < month then dayofyr + 1 else dayofyr);
          eps = max (0.000000000001 * \<bar>of_int Z\<bar>) 0.000000000001;
          hour = min 23 (max 0 (int_trunc (F * 24 + eps)));
          F = F - of_int hour / 24;
          minute = min 59 (max 0 (int_trunc (F * 1440 + eps)));
          second = max 0 ((F - of_int minute / 1440) * 86400);
          microsecond = (second - of_int \<lfloor>second\<rfloor>) * 1000000
      in (\<lparr>year = year, month = month, day = int_trunc day, hour = hour, minute = minute,
           second = int_trunc second, microsecond = int_trunc microsecond\<rparr>, dayofwk, dayofyr))"

text \<open>
  The whole function on a batch (lines 236-239 and 336-358). Line 337 tests
  \<open>calendar in 'proleptic_gregorian'\<close>, a substring test on a string; the second
  disjunct asks that no element of the batch lies before the Gregorian cutover.
\<close>

definition DateFromJulianDay_array :: "real list \<Rightarrow> string \<Rightarrow> error + date_obj list" where
  "DateFromJulianDay_array JD calendar =
     (if JD = [] then Inl EmptyReduction
      else if Min (set JD) < 0 then Inl JulianDayNegative
      else if \<not> (calendar = ''standard'' \<or> calendar = ''gregorian''
                \<or> calendar = ''proleptic_gregorian'' \<or> calendar = ''julian'')
        then Inl UnknownCalendar
      else if str_in calendar ''proleptic_gregorian''
              \<or> ((calendar = ''standard'' \<or> calendar = ''gregorian'')
                  \<and> filter (\<lambda>julian. julian < 2299160.5) JD = [])
        then sum_map (\<lambda>julian. new_real_datetime (fst (date_fields calendar julian))) JD
      else Inr (map (\<lambda>julian. case date_fields calendar julian of
                      (d, dayofwk, dayofyr) \<Rightarrow> datetime d dayofwk dayofyr) JD))"

definition DateFromJulianDay :: "real \<Rightarrow> string \<Rightarrow> error + date_obj" where
  "DateFromJulianDay JD calendar = map_sum id hd (DateFromJulianDay_array [JD] calendar)"

section \<open>The calendars with years of fixed length\<close>

text \<open>\<open>_NoLeapDayFromDate\<close>, \<open>_AllLeapFromDate\<close> and \<open>_360DayFromDate\<close> (lines 124-204).\<close>

definition NoLeapDayFromDate :: "datetime_like \<Rightarrow> real" where
  "NoLeapDayFromDate d =
     of_int (int_trunc (365 * of_int (meeus_year d + 4716)))
       + of_int (int_trunc (30.6001 * of_int (meeus_month d + 1)))
       + day_fraction d - 1524.5"

definition AllLeapFromDate :: "datetime_like \<Rightarrow> real" where
  "AllLeapFromDate d =
     of_int (int_trunc (366 * of_int (meeus_year d + 4716)))
       + of_int (int_trunc (30.6001 * of_int (meeus_month d + 1)))
       + day_fraction d - 1524.5"

definition Day360FromDate :: "datetime_like \<Rightarrow> real" where
  "Day360FromDate d =
     of_int (int_trunc (360 * of_int (year d + 4716)))
       + of_int (int_trunc (30 * of_int (month d - 1)))
       + day_fraction d"

section \<open>The class utime\<close>

definition units_list :: "string list" where
  "units_list = [''days'', ''hours'', ''minutes'', ''seconds'', ''day'', ''hour'', ''minute'',
     ''second'', ''milliseconds'', ''millisecond'', ''microseconds'', ''microsecond'']"

definition calendars_list :: "string list" where
  "calendars_list = [''standard'', ''gregorian'', ''proleptic_gregorian'', ''noleap'', ''julian'',
     ''all_leap'', ''365_day'', ''366_day'', ''360_day'']"

record utime =
  self_calendar :: string
  self_units :: string
  self_tzoffset :: real
  self_origin :: datetime_like
  self_jd0 :: real

text \<open>
  The day count of the origin, with the checks that precede it (lines 657-670 of
  \<open>utime.__init__\<close>).
\<close>

definition origin_jd :: "string \<Rightarrow> datetime_like \<Rightarrow> error + real" where
  "origin_jd calendar origin =
     (if (calendar = ''noleap'' \<or> calendar = ''365_day'') \<and> month origin = 2 \<and> day origin = 29
        then Inl NoLeapDay
      else if calendar = ''360_day'' \<and> 30 < day origin then Inl Only30Days
      else if calendar = ''noleap'' \<or> calendar = ''365_day'' then Inr (NoLeapDayFromDate origin)
      else if calendar = ''all_leap'' \<or> calendar = ''366_day'' then Inr (AllLeapFromDate origin)
      else if calendar = ''360_day'' then Inr (Day360FromDate origin)
      else JulianDayFromDate origin calendar)"

text \<open>
  \<open>utime.__init__\<close> (lines 647-670). The unit string has been split by \<open>_dateparse\<close>
  into the units, the offset from UTC in minutes and the origin; the calendar name is
  taken in lower case.
\<close>

definition utime_init :: "string \<times> real \<times> datetime_like \<Rightarrow> string \<Rightarrow> error + utime" where
  "utime_init parsed calendar =
     (case parsed of (units, tzoffset, origin) \<Rightarrow>
        if calendar \<notin> set calendars_list then Inl UnknownCalendar
        else (case origin_jd calendar origin of
                Inl e \<Rightarrow> Inl e
              | Inr jd \<Rightarrow> Inr \<lparr>self_calendar = calendar, self_units = units,
                  self_tzoffset = tzoffset, self_origin = origin, self_jd0 = jd\<rparr>))"

text \<open>\<open>utime.date2num\<close> on one date (lines 699-752).\<close>

definition date2num_jdelta :: "utime \<Rightarrow> datetime_like \<Rightarrow> error + real" where
  "date2num_jdelta self date =
     (let calendar = self_calendar self
      in if calendar = ''julian'' \<or> calendar = ''standard'' \<or> calendar = ''gregorian''
            \<or> calendar = ''proleptic_gregorian'' then
           (case JulianDayFromDate date calendar of
              Inl e \<Rightarrow> Inl e | Inr jd \<Rightarrow> Inr (jd - self_jd0 self))
         else if calendar = ''noleap'' \<or> calendar = ''365_day'' then
           (if month date = 2 \<and> day date = 29 then Inl NoLeapDay
            else Inr (NoLeapDayFromDate date - self_jd0 self))
         else if calendar = ''all_leap'' \<or> calendar = ''366_day'' then
           Inr (AllLeapFromDate date - self_jd0 self)
         else if calendar = ''360_day'' then
           (if 30 < day date then Inl Only30Days
            else Inr (Day360FromDate date - self_jd0 self))
         else Inl UnboundLocalError)"

definition date2num :: "utime \<Rightarrow> datetime_like \<Rightarrow> error + real" where
  "date2num self date =
     (case date2num_jdelta self date of
        Inl e \<Rightarrow> Inl e
      | Inr jdelta \<Rightarrow>
          let units = self_units self; tzoffset = self_tzoffset self
          in if units = ''microseconds'' \<or> units = ''microsecond'' then
               Inr (jdelta * 86400 * 1000000 - tzoffset * 60 * 1000000)
             else if units = ''milliseconds'' \<or> units = ''millisecond'' then
               Inr (jdelta * 86400 * 1000 - tzoffset * 60 * 1000)
             else if units = ''second'' \<or> units = ''seconds'' then
               Inr (jdelta * 86400 - tzoffset * 60)
             else if units = ''minute'' \<or> units = ''minutes'' then
               Inr (jdelta * 1440 - tzoffset)
             else if units = ''hour'' \<or> units = ''hours'' then
               Inr (jdelta * 24 - tzoffset / 60)
             else if units = ''day'' \<or> units = ''days'' then
               Inr (jdelta - tzoffset / 1440)
             else Inr jdelta)"

text \<open>
  The factor by which a number of days is scaled to each unit, as the specification lists
  them (section 4.3); the singular names stand for the same units.
\<close>

definition spec_unit_factor :: "string \<Rightarrow> real" where
  "spec_unit_factor units =
     (if units = ''days'' \<or> units = ''day'' then 1
      else if units = ''hours'' \<or> units = ''hour'' then 24
      else if units = ''minutes'' \<or> units = ''minute'' then 1440
      else if units = ''seconds'' \<or> units = ''second'' then 86400
      else if units = ''milliseconds'' \<or> units = ''millisecond'' then 86400000
      else if units = ''microseconds'' \<or> units = ''microsecond'' then 86400000000
      else 0)"

section \<open>Indices of times\<close>

text \<open>
  Reading a Python sequence at an index: a negative index counts from the end, and an
  index outside the sequence raises \<open>IndexError\<close>.
\<close>

definition py_getitem :: "'a list \<Rightarrow> int \<Rightarrow> error + 'a" where
  "py_getitem xs i =
     (if 0 \<le> i \<and> i < int (length xs) then Inr (xs ! nat i)
      else if i < 0 \<and> - int (length xs) \<le> i then Inr (xs ! nat (int (length xs) + i))
      else Inl IndexError)"

text \<open>
  \<open>bisect.bisect_right\<close> and \<open>bisect.bisect_left\<close> of Python's standard library, with
  their loop over the bounds \<open>lo\<close> and \<open>hi\<close>.
\<close>

function bisect_right_loop :: "real list \<Rightarrow> real \<Rightarrow> nat \<Rightarrow> nat \<Rightarrow> nat" where
  "bisect_right_loop a x lo hi =
     (if lo < hi then
        (if x < a ! ((lo + hi) div 2) then bisect_right_loop a x lo ((lo + hi) div 2)
         else bisect_right_loop a x ((lo + hi) div 2 + 1) hi)
      else lo)"
  by pat_completeness auto
termination
  by (relation "measure (\<lambda>(a, x, lo, hi). hi - lo)") auto

function bisect_left_loop :: "real list \<Rightarrow> real \<Rightarrow> nat \<Rightarrow> nat \<Rightarrow> nat" where
  "bisect_left_loop a x lo hi =
     (if lo < hi then
        (if a ! ((lo + hi) div 2) < x then bisect_left_loop a x ((lo + hi) div 2 + 1) hi
         else bisect_left_loop a x lo ((lo + hi) div 2))
      else lo)"
  by pat_completeness auto
termination
  by (relation "measure (\<lambda>(a, x, lo, hi). hi - lo)") auto

declare bisect_right_loop.simps [simp del] bisect_left_loop.simps [simp del]

definition bisect_right :: "real list \<Rightarrow> real \<Rightarrow> nat" where
  "bisect_right a x = bisect_right_loop a x 0 (length a)"

definition bisect_left :: "real list \<Rightarrow> real \<Rightarrow> nat" where
  "bisect_left a x = bisect_left_loop a x 0 (length a)"

text \<open>
  \<open>_check_index\<close> (lines 911-951). The indices have been found in range before the
  time variable is read at them.
\<close>

definition np_clip :: "int \<Rightarrow> int \<Rightarrow> int \<Rightarrow> int" where
  "np_clip i lo hi = min hi (max lo i)"

definition check_index :: "int list \<Rightarrow> real list \<Rightarrow> real list \<Rightarrow> string \<Rightarrow> bool" where
  "check_index indices times' nctime select =
     (let N = int (length nctime)
      in if list_ex (\<lambda>i. i < 0) indices then False
         else if list_ex (\<lambda>i. N \<le> i) indices then False
         else
           let t = map (\<lambda>i. nctime ! nat i) indices;
               ta = map (\<lambda>i. nctime ! nat (np_clip (i + 1) 0 (N - 1))) indices;
               tb = map (\<lambda>i. nctime ! nat (np_clip (i - 1) 0 (N - 1))) indices
           in if select = ''exact'' then list_all (\<lambda>(t, q). t = q) (zip t times')
              else if select = ''before'' then
                list_all (\<lambda>(t, q). t \<le> q) (zip t times') \<and> list_all (\<lambda>(ta, q). q < ta) (zip ta times')
              else if select = ''after'' then
                list_all (\<lambda>(t, q). q \<le> t) (zip t times') \<and> list_all (\<lambda>(tb, q). tb < q) (zip tb times')
              else if select = ''nearest'' then
                list_all (\<lambda>((t, ta), q). \<bar>q - t\<bar> \<le> ta - t) (zip (zip t ta) times')
                  \<and> list_all (\<lambda>((t, tb), q). \<bar>q - t\<bar> \<le> t - tb) (zip (zip t tb) times')
              else False)"

text \<open>
  The first phase of \<open>time2index\<close> (lines 1024-1035): the start \<open>t0\<close> and the stride
  \<open>dt\<close> of the time variable, and the index guessed from them for each time.
\<close>

definition series_start :: "real list \<Rightarrow> error + real \<times> real" where
  "series_start nctime =
     (if 2 \<le> length nctime then Inr (nctime ! 0, nctime ! 1 - nctime ! 0)
      else (case py_getitem nctime 0 of Inl e \<Rightarrow> Inl e | Inr t0 \<Rightarrow> Inr (t0, 1)))"

definition guess_index :: "string \<Rightarrow> real \<Rightarrow> real \<Rightarrow> real \<Rightarrow> int" where
  "guess_index select t0 dt q =
     (if select = ''exact'' \<or> select = ''before'' then int_trunc ((q - t0) / dt)
      else if select = ''after'' then int_trunc (of_int \<lceil>(q - t0) / dt\<rceil>)
      else int_trunc (of_int (np_round ((q - t0) / dt))))"

text \<open>
  The bisection of lines 1042-1087. \<open>before\<close>, \<open>after\<close> and \<open>mismatch\<close> are kept
  as one truth value for each time.
\<close>

definition nearest_index :: "real list \<Rightarrow> real \<times> int \<times> bool \<Rightarrow> error + int" where
  "nearest_index nctime e =
     (case e of (n, i, m) \<Rightarrow>
        if m then
          (case py_getitem nctime (i - 1) of
             Inl e \<Rightarrow> Inl e
           | Inr v_prev \<Rightarrow>
               (case py_getitem nctime i of
                  Inl e \<Rightarrow> Inl e
                | Inr v \<Rightarrow> Inr (if n < (v_prev + v) / 2 then i - 1 else i)))
        else Inr i)"

definition bisection :: "real list \<Rightarrow> real list \<Rightarrow> string \<Rightarrow> error + int list" where
  "bisection num nctime select =
     (let N = int (length nctime);
          before = map (\<lambda>n. bisect_right nctime n = 0) num;
          index = map (\<lambda>n. int (bisect_left nctime n)) num;
          after = map (\<lambda>i. i = N) index
      in if (select = ''before'' \<or> select = ''exact'') \<and> list_ex (\<lambda>b. b) before
           then Inl TimesBeforeFirst
         else if (select = ''after'' \<or> select = ''exact'') \<and> list_ex (\<lambda>a. a) after
           then Inl TimesAfterLast
         else
           let index = map (\<lambda>(a, i). if a then N - 1 else i) (zip after index)
           in (case sum_map (py_getitem nctime) index of
                 Inl e \<Rightarrow> Inl e
               | Inr ncnum \<Rightarrow>
                   let mismatch = map (\<lambda>(v, n). v \<noteq> n) (zip ncnum num);
                       zero_before = (\<lambda>index. map (\<lambda>(b, i). if b then 0 else i) (zip before index))
                   in if select = ''exact'' then
                        (if list_ex (\<lambda>m. m) mismatch then Inl TimesNotFound
                         else Inr (zero_before index))
                      else if select = ''before'' then
                        (let index = map (\<lambda>(a, i). if a then N else i) (zip after index);
                             index = map (\<lambda>(m, i). if m then i - 1 else i) (zip mismatch index)
                         in Inr (zero_before index))
                      else if select = ''after'' then Inr (zero_before index)
                      else if select = ''nearest'' then
                        (case sum_map (nearest_index nctime) (zip num (zip index mismatch)) of
                           Inl e \<Rightarrow> Inl e
                         | Inr index \<Rightarrow> Inr (zero_before index))
                      else Inl BadSelect))"

text \<open>
  \<open>time2index\<close> (lines 1019-1090). When the stride is zero the quotients are not
  finite; their conversion to integers gives no index that \<open>_check_index\<close> accepts, and
  the bisection is used. \<open>_toscalar\<close> returns the only element of an array of one.
\<close>

datatype index_result = Index int | Indices "int list"

definition toscalar :: "int list \<Rightarrow> index_result" where
  "toscalar a = (case a of [i] \<Rightarrow> Index i | _ \<Rightarrow> Indices a)"

definition time2index :: "real list \<Rightarrow> real list \<Rightarrow> string \<Rightarrow> error + index_result" where
  "time2index num nctime select =
     (case series_start nctime of
        Inl e \<Rightarrow> Inl e
      | Inr (t0, dt) \<Rightarrow>
          let index = map (guess_index select t0 dt) num
          in if dt \<noteq> 0 \<and> check_index index num nctime select then Inr (toscalar index)
             else map_sum id toscalar (bisection num nctime select))"

section \<open>Civil dates\<close>



section \<open>Properties\<close>

text \<open>
  C2. The Julian Day of 2000-01-01 12:00:00 in the proleptic Gregorian calendar is
  exactly 2451545.
\<close>

theorem anchor_J2000:
  "JulianDayFromDate
     \<lparr>year = 2000, month = 1, day = 1, hour = 12, minute = 0, second = 0, microsecond = 0\<rparr>
     ''proleptic_gregorian'' = Inr 2451545"
  by (simp add: JulianDayFromDate_def JulianDayFromDate_array_def julian_jd_def gregorian_B_def
      century_A_def meeus_year_def meeus_month_def day_fraction_def int_trunc_def)

text \<open>The fields computed for the Julian Days used below.\<close>

lemma fields_end_of_day:
  "fst (date_fields ''proleptic_gregorian'' (105907370399 / 43200))
     = \<lparr>year = 2000, month = 1, day = 15, hour = 0, minute = 0, second = 0, microsecond = 0\<rparr>"
  by code_simp

lemma fields_gregorian_763:
  "date_fields ''gregorian'' 2000000
     = (\<lparr>year = 763, month = 9, day = 14, hour = 12, minute = 0, second = 0, microsecond = 0\<rparr>,
        3, 257)"
  by code_simp

lemma fields_standard_763:
  "date_fields ''standard'' 2000000
     = (\<lparr>year = 763, month = 9, day = 14, hour = 12, minute = 0, second = 0, microsecond = 0\<rparr>,
        3, 257)"
  by code_simp

text \<open>
  C1. A date converted to its Julian Day and back should come out equal to itself within
  0.1 seconds. At 2000-01-15 23:59:58 in the proleptic Gregorian calendar it does not:
  the day is rounded up to the 16th (line 245), the fraction of the day becomes negative,
  and the date returned is 2000-01-15 00:00:00, which is 86398 seconds earlier.
\<close>

theorem round_trip_end_of_day:
  "JulianDayFromDate
     \<lparr>year = 2000, month = 1, day = 15, hour = 23, minute = 59, second = 58, microsecond = 0\<rparr>
     ''proleptic_gregorian'' = Inr (105907370399 / 43200)
   \<and> DateFromJulianDay (105907370399 / 43200) ''proleptic_gregorian''
     = Inr (real_datetime
        \<lparr>year = 2000, month = 1, day = 15, hour = 0, minute = 0, second = 0, microsecond = 0\<rparr>)"
proof -
  have "JulianDayFromDate
     \<lparr>year = 2000, month = 1, day = 15, hour = 23, minute = 59, second = 58, microsecond = 0\<rparr>
     ''proleptic_gregorian'' = Inr (105907370399 / 43200)"
    by code_simp
  moreover have "DateFromJulianDay (105907370399 / 43200) ''proleptic_gregorian''
     = Inr (real_datetime
        \<lparr>year = 2000, month = 1, day = 15, hour = 0, minute = 0, second = 0, microsecond = 0\<rparr>)"
    by (simp add: DateFromJulianDay_def DateFromJulianDay_array_def fields_end_of_day
        new_real_datetime_def days_in_month_def)
  ultimately show ?thesis by simp
qed

text \<open>Earlier in the same day the date comes back as it was given.\<close>

lemma fields_midday:
  "fst (date_fields ''proleptic_gregorian'' (4706993321 / 1920))
     = \<lparr>year = 2000, month = 1, day = 15, hour = 12, minute = 30, second = 45, microsecond = 0\<rparr>"
  by code_simp

lemma round_trip_midday:
  "JulianDayFromDate
     \<lparr>year = 2000, month = 1, day = 15, hour = 12, minute = 30, second = 45, microsecond = 0\<rparr>
     ''proleptic_gregorian'' = Inr (4706993321 / 1920)
   \<and> DateFromJulianDay (4706993321 / 1920) ''proleptic_gregorian''
     = Inr (real_datetime
        \<lparr>year = 2000, month = 1, day = 15, hour = 12, minute = 30, second = 45, microsecond = 0\<rparr>)"
proof -
  have "JulianDayFromDate
     \<lparr>year = 2000, month = 1, day = 15, hour = 12, minute = 30, second = 45, microsecond = 0\<rparr>
     ''proleptic_gregorian'' = Inr (4706993321 / 1920)"
    by code_simp
  moreover have "DateFromJulianDay (4706993321 / 1920) ''proleptic_gregorian''
     = Inr (real_datetime
        \<lparr>year = 2000, month = 1, day = 15, hour = 12, minute = 30, second = 45, microsecond = 0\<rparr>)"
    by (simp add: DateFromJulianDay_def DateFromJulianDay_array_def fields_midday
        new_real_datetime_def days_in_month_def)
  ultimately show ?thesis by simp
qed

text \<open>
  C4. Before the Gregorian cutover the mixed calendar should give a 'phony' date under
  both of its names. Under the name \<open>gregorian\<close> the Julian Day 2000000 (in the year 763)
  gives a real datetime, because the name is a substring of \<open>proleptic_gregorian\<close>;
  under the name \<open>standard\<close> the same day gives a 'phony' date.
\<close>

theorem gregorian_name_gives_real_datetime:
  "DateFromJulianDay 2000000 ''gregorian''
     = Inr (real_datetime
        \<lparr>year = 763, month = 9, day = 14, hour = 12, minute = 0, second = 0, microsecond = 0\<rparr>)
   \<and> DateFromJulianDay 2000000 ''standard''
     = Inr (datetime
        \<lparr>year = 763, month = 9, day = 14, hour = 12, minute = 0, second = 0, microsecond = 0\<rparr>
        3 257)"
  by (simp add: DateFromJulianDay_def DateFromJulianDay_array_def fields_gregorian_763
      fields_standard_763 new_real_datetime_def days_in_month_def)

text \<open>
  C6. The day count should grow strictly with the civil date. In the proleptic Gregorian
  calendar the 28th of February and the 1st of March of the year -99 have the same day
  count: the century of a negative year is truncated toward zero (line 86).
\<close>

theorem equal_day_counts_before_year_one:
  "JulianDayFromDate
     \<lparr>year = - 99, month = 2, day = 28, hour = 0, minute = 0, second = 0, microsecond = 0\<rparr>
     ''proleptic_gregorian'' = Inr (3369919 / 2)
   \<and> JulianDayFromDate
     \<lparr>year = - 99, month = 3, day = 1, hour = 0, minute = 0, second = 0, microsecond = 0\<rparr>
     ''proleptic_gregorian'' = Inr (3369919 / 2)"
  by code_simp

text \<open>
  In the Julian calendar the same happens below the year -8000, where the quarter of the
  year plus 2000 is negative (line 91): the 29th of February and the 1st of March of the
  year -8004 have the same day count.
\<close>

lemma equal_day_counts_julian_leap_day:
  "JulianDayFromDate
     \<lparr>year = - 8004, month = 2, day = 29, hour = 0, minute = 0, second = 0, microsecond = 0\<rparr>
     ''julian'' = Inr (- (2404687 / 2))
   \<and> JulianDayFromDate
     \<lparr>year = - 8004, month = 3, day = 1, hour = 0, minute = 0, second = 0, microsecond = 0\<rparr>
     ''julian'' = Inr (- (2404687 / 2))"
  by code_simp

section \<open>Insertion points and the bisection\<close>

lemma sum_map_Inr:
  "(\<And>x. x \<in> set xs \<Longrightarrow> f x = Inr (g x)) \<Longrightarrow> sum_map f xs = Inr (map g xs)"
  by (induction xs) auto

lemma bisect_right_loop_step:
  "lo < hi \<Longrightarrow> x < a ! ((lo + hi) div 2) \<Longrightarrow>
     bisect_right_loop a x lo hi = bisect_right_loop a x lo ((lo + hi) div 2)"
  "lo < hi \<Longrightarrow> \<not> x < a ! ((lo + hi) div 2) \<Longrightarrow>
     bisect_right_loop a x lo hi = bisect_right_loop a x ((lo + hi) div 2 + 1) hi"
  "\<not> lo < hi \<Longrightarrow> bisect_right_loop a x lo hi = lo"
  by (subst bisect_right_loop.simps, simp)+

lemma bisect_left_loop_step:
  "lo < hi \<Longrightarrow> a ! ((lo + hi) div 2) < x \<Longrightarrow>
     bisect_left_loop a x lo hi = bisect_left_loop a x ((lo + hi) div 2 + 1) hi"
  "lo < hi \<Longrightarrow> \<not> a ! ((lo + hi) div 2) < x \<Longrightarrow>
     bisect_left_loop a x lo hi = bisect_left_loop a x lo ((lo + hi) div 2)"
  "\<not> lo < hi \<Longrightarrow> bisect_left_loop a x lo hi = lo"
  by (subst bisect_left_loop.simps, simp)+

lemma mid_bounds: "lo < hi \<Longrightarrow> lo \<le> (lo + hi) div 2 \<and> (lo + hi) div 2 < (hi :: nat)"
  by linarith


lemma bisect_left_loop_bounds:
  "lo \<le> hi \<Longrightarrow> lo \<le> bisect_left_loop a x lo hi \<and> bisect_left_loop a x lo hi \<le> hi"
proof (induction a x lo hi rule: bisect_left_loop.induct)
  case (1 a x lo hi)
  show ?case
  proof (cases "lo < hi")
    case True
    note m = mid_bounds [OF True]
    show ?thesis
    proof (cases "a ! ((lo + hi) div 2) < x")
      case less: True
      from "1.IH"(1) [OF True less] m show ?thesis
        by (simp add: bisect_left_loop_step(1) [OF True less])
    next
      case False
      from "1.IH"(2) [OF True False] m show ?thesis
        by (simp add: bisect_left_loop_step(2) [OF True False])
    qed
  next
    case False
    then show ?thesis using "1.prems" by (simp add: bisect_left_loop_step(3))
  qed
qed

text \<open>A time below every value read by the search is inserted at the lower bound.\<close>

lemma bisect_right_loop_below:
  "(\<And>j. lo \<le> j \<Longrightarrow> j < hi \<Longrightarrow> x < a ! j) \<Longrightarrow> bisect_right_loop a x lo hi = lo"
proof (induction a x lo hi rule: bisect_right_loop.induct)
  case (1 a x lo hi)
  show ?case
  proof (cases "lo < hi")
    case True
    note m = mid_bounds [OF True]
    have less: "x < a ! ((lo + hi) div 2)" using "1.prems" m by simp
    have "bisect_right_loop a x lo ((lo + hi) div 2) = lo"
      using "1.IH"(1) [OF True less] "1.prems" m by simp
    then show ?thesis by (simp add: bisect_right_loop_step(1) [OF True less])
  next
    case False
    then show ?thesis by (simp add: bisect_right_loop_step(3))
  qed
qed

lemma bisect_left_loop_below:
  "(\<And>j. lo \<le> j \<Longrightarrow> j < hi \<Longrightarrow> \<not> a ! j < x) \<Longrightarrow> bisect_left_loop a x lo hi = lo"
proof (induction a x lo hi rule: bisect_left_loop.induct)
  case (1 a x lo hi)
  show ?case
  proof (cases "lo < hi")
    case True
    note m = mid_bounds [OF True]
    have nless: "\<not> a ! ((lo + hi) div 2) < x" using "1.prems" m by simp
    have "bisect_left_loop a x lo ((lo + hi) div 2) = lo"
      using "1.IH"(2) [OF True nless] "1.prems" m by simp
    then show ?thesis by (simp add: bisect_left_loop_step(2) [OF True nless])
  next
    case False
    then show ?thesis by (simp add: bisect_left_loop_step(3))
  qed
qed

lemma bisect_left_loop_above:
  "lo \<le> hi \<Longrightarrow> (\<And>j. lo \<le> j \<Longrightarrow> j < hi \<Longrightarrow> a ! j < x) \<Longrightarrow> bisect_left_loop a x lo hi = hi"
proof (induction a x lo hi rule: bisect_left_loop.induct)
  case (1 a x lo hi)
  show ?case
  proof (cases "lo < hi")
    case True
    note m = mid_bounds [OF True]
    have less: "a ! ((lo + hi) div 2) < x" using "1.prems" m by simp
    have "bisect_left_loop a x ((lo + hi) div 2 + 1) hi = hi"
      using "1.IH"(1) [OF True less] "1.prems" m by simp
    then show ?thesis by (simp add: bisect_left_loop_step(1) [OF True less])
  next
    case False
    then show ?thesis using "1.prems" by (simp add: bisect_left_loop_step(3))
  qed
qed


lemma sum_map_map: "sum_map f (map g xs) = sum_map (\<lambda>x. f (g x)) xs"
  by (induction xs) (auto split: sum.splits)

lemma sum_map_nth:
  "sum_map f xs = Inr ys \<Longrightarrow> length ys = length xs \<and> (\<forall>k<length xs. f (xs ! k) = Inr (ys ! k))"
proof (induction xs arbitrary: ys)
  case Nil
  then show ?case by simp
next
  case (Cons x xs)
  from Cons.prems obtain y ys' where y: "f x = Inr y" and ys': "sum_map f xs = Inr ys'"
    and ys: "ys = y # ys'"
    by (auto split: sum.splits)
  from Cons.IH [OF ys'] y ys show ?case
    by (auto simp: nth_Cons split: nat.splits)
qed

lemma zip_map_same: "zip (map f xs) (map g xs) = map (\<lambda>x. (f x, g x)) xs"
  by (induction xs) auto

lemma zip_map_left: "zip xs (map g xs) = map (\<lambda>x. (x, g x)) xs"
  by (induction xs) auto

lemma zip_map_right: "zip (map f xs) xs = map (\<lambda>x. (f x, x)) xs"
  by (induction xs) auto

lemma bisect_left_le: "bisect_left a x \<le> length a"
  using bisect_left_loop_bounds [of 0 "length a" a x] by (simp add: bisect_left_def)

lemma py_getitem_in_range:
  "0 \<le> i \<Longrightarrow> i < int (length xs) \<Longrightarrow> py_getitem xs i = Inr (xs ! nat i)"
  by (simp add: py_getitem_def)

text \<open>The index at which the time variable is read: the left insertion point, or the last index.\<close>

lemma read_index_range:
  assumes "nctime \<noteq> []"
  shows "0 \<le> (if int (bisect_left nctime n) = int (length nctime) then int (length nctime) - 1
               else int (bisect_left nctime n))
     \<and> (if int (bisect_left nctime n) = int (length nctime) then int (length nctime) - 1
               else int (bisect_left nctime n)) < int (length nctime)"
  using assms bisect_left_le [of nctime n] by (cases nctime) auto

lemma read_values:
  assumes "nctime \<noteq> []"
  shows "sum_map (\<lambda>x. py_getitem nctime
            (if bisect_left nctime x = length nctime then int (length nctime) - 1
             else int (bisect_left nctime x))) num
     = Inr (map (\<lambda>x. nctime ! nat
            (if bisect_left nctime x = length nctime then int (length nctime) - 1
             else int (bisect_left nctime x))) num)"
proof (rule sum_map_Inr)
  fix x
  from read_index_range [OF assms, of x]
  show "py_getitem nctime
          (if bisect_left nctime x = length nctime then int (length nctime) - 1
           else int (bisect_left nctime x))
      = Inr (nctime ! nat (if bisect_left nctime x = length nctime then int (length nctime) - 1
           else int (bisect_left nctime x)))"
    by (intro py_getitem_in_range) auto
qed

lemmas bisection_simps =
  bisection_def Let_def zip_map_same zip_map_left zip_map_right sum_map_map list_ex_iff read_values

lemma bisect_left_above: "(\<And>v. v \<in> set a \<Longrightarrow> v < x) \<Longrightarrow> bisect_left a x = length a"
  unfolding bisect_left_def by (rule bisect_left_loop_above) auto

lemma bisect_left_below: "(\<And>v. v \<in> set a \<Longrightarrow> x < v) \<Longrightarrow> bisect_left a x = 0"
  unfolding bisect_left_def
proof (rule bisect_left_loop_below)
  fix j
  assume v: "\<And>v. v \<in> set a \<Longrightarrow> x < v" and j: "j < length a"
  from v [OF nth_mem [OF j]] show "\<not> a ! j < x" by simp
qed

lemma before_above_all:
  assumes k: "k < length num"
    and nb: "\<And>n. n \<in> set num \<Longrightarrow> bisect_right nctime n \<noteq> 0"
    and above: "\<And>v. v \<in> set nctime \<Longrightarrow> v < num ! k"
  shows "\<exists>index. bisection num nctime ''before'' = Inr index
           \<and> index ! k = int (length nctime) - 1"
proof -
  have ne: "nctime \<noteq> []"
    using nb [of "num ! k"] k by (auto simp: bisect_right_def bisect_right_loop_step(3))
  have l: "bisect_left nctime (num ! k) = length nctime"
    using above by (rule bisect_left_above)
  have r: "bisect_right nctime (num ! k) \<noteq> 0" using nb k by simp
  have last: "nctime ! nat (int (length nctime) - 1) \<noteq> num ! k"
    using above [of "nctime ! nat (int (length nctime) - 1)"] ne
    by (cases nctime rule: rev_cases) (auto simp: nth_append)
  show ?thesis
    using k ne l last by (simp add: bisection_simps nb r)
qed



lemma nearest_index_in_range:
  assumes "0 \<le> i" "i < int (length nctime)"
  shows "nearest_index nctime (n, i, m)
     = Inr (if m then
              (if n < (nctime ! nat (if i = 0 then int (length nctime) - 1 else i - 1)
                        + nctime ! nat i) / 2
               then i - 1 else i)
            else i)"
  using assms by (auto simp: nearest_index_def py_getitem_def)

lemma sum_map_projr:
  "(\<And>x. x \<in> set xs \<Longrightarrow> \<not> isl (f x)) \<Longrightarrow> sum_map f xs = Inr (map (\<lambda>x. projr (f x)) xs)"
  by (rule sum_map_Inr) simp

lemma nearest_values:
  assumes "nctime \<noteq> []"
  shows "sum_map
           (\<lambda>x. nearest_index nctime
              (x, if bisect_left nctime x = length nctime then int (length nctime) - 1
                  else int (bisect_left nctime x),
               nctime ! nat (if bisect_left nctime x = length nctime then int (length nctime) - 1
                  else int (bisect_left nctime x)) \<noteq> x)) num
     = Inr (map (\<lambda>x. projr (nearest_index nctime
              (x, if bisect_left nctime x = length nctime then int (length nctime) - 1
                  else int (bisect_left nctime x),
               nctime ! nat (if bisect_left nctime x = length nctime then int (length nctime) - 1
                  else int (bisect_left nctime x)) \<noteq> x))) num)"
proof (rule sum_map_projr)
  fix x
  from read_index_range [OF assms, of x]
  show "\<not> isl (nearest_index nctime
              (x, if bisect_left nctime x = length nctime then int (length nctime) - 1
                  else int (bisect_left nctime x),
               nctime ! nat (if bisect_left nctime x = length nctime then int (length nctime) - 1
                  else int (bisect_left nctime x)) \<noteq> x))"
    by (subst nearest_index_in_range) auto
qed

lemma after_image_iff:
  "int (length nctime) \<in> (\<lambda>n. int (bisect_left nctime n)) ` set num
     \<longleftrightarrow> (\<exists>n\<in>set num. bisect_left nctime n = length nctime)"
proof
  assume "int (length nctime) \<in> (\<lambda>n. int (bisect_left nctime n)) ` set num"
  then obtain n where n: "n \<in> set num" and "int (length nctime) = int (bisect_left nctime n)"
    by (rule imageE)
  then have "bisect_left nctime n = length nctime" by simp
  with n show "\<exists>n\<in>set num. bisect_left nctime n = length nctime" by blast
next
  assume "\<exists>n\<in>set num. bisect_left nctime n = length nctime"
  then obtain n where n: "n \<in> set num" and "bisect_left nctime n = length nctime" by blast
  then have "int (length nctime) = int (bisect_left nctime n)" by simp
  with n show "int (length nctime) \<in> (\<lambda>n. int (bisect_left nctime n)) ` set num"
    by (rule image_eqI [rotated])
qed

lemma no_after_image:
  assumes na: "\<And>n. n \<in> set num \<Longrightarrow> bisect_left nctime n \<noteq> length nctime"
  shows "int (length nctime) \<notin> (\<lambda>n. int (bisect_left nctime n)) ` set num"
proof
  assume "int (length nctime) \<in> (\<lambda>n. int (bisect_left nctime n)) ` set num"
  then obtain n where n: "n \<in> set num" and "int (length nctime) = int (bisect_left nctime n)"
    by (rule imageE)
  then have "bisect_left nctime n = length nctime" by simp
  with na [OF n] show False by simp
qed

lemma after_below_all:
  assumes k: "k < length num"
    and na: "\<And>n. n \<in> set num \<Longrightarrow> bisect_left nctime n \<noteq> length nctime"
    and below: "\<And>v. v \<in> set nctime \<Longrightarrow> num ! k < v"
  shows "\<exists>index. bisection num nctime ''after'' = Inr index \<and> index ! k = 0"
proof -
  have l: "bisect_left nctime (num ! k) = 0"
    using below by (rule bisect_left_below)
  have ne: "nctime \<noteq> []"
    using na [of "num ! k"] k l by auto
  have na': "int (length nctime) \<notin> (\<lambda>n. int (bisect_left nctime n)) ` set num"
    using na by (rule no_after_image)
  show ?thesis
    using k ne by (simp add: bisection_simps na' l)
qed



text \<open>
  A candidate index 0 has no left neighbour. A time below every value of the time variable
  has it, and gets the index 0.
\<close>

lemma nearest_below_all:
  assumes k: "k < length num"
    and ne: "nctime \<noteq> []"
    and below: "\<And>v. v \<in> set nctime \<Longrightarrow> num ! k < v"
  shows "\<exists>index. bisection num nctime ''nearest'' = Inr index \<and> index ! k = 0"
proof -
  have "bisect_right_loop nctime (num ! k) 0 (length nctime) = 0"
  proof (rule bisect_right_loop_below)
    fix j
    assume "j < length nctime"
    then show "num ! k < nctime ! j" by (intro below nth_mem)
  qed
  then have r: "bisect_right nctime (num ! k) = 0" by (simp add: bisect_right_def)
  show ?thesis
    using k ne by (simp add: bisection_simps nearest_values r)
qed

text \<open>
  On the evenly spaced time variable 0, 6, 12, 18, 24 the whole of \<open>time2index\<close> does
  not reach the bisection for the time 15: the guess 2 passes \<open>_check_index\<close>.
\<close>

lemma uniform_midpoint_guess:
  "time2index [15] [0, 6, 12, 18, 24] ''nearest'' = Inr (Index 2)"
  by code_simp

text \<open>
  C8. In the bisection, when the selection is exact or before and some time has right
  insertion point 0, the call fails with the error for times before the first time. When
  the selection is after, or is exact and no time has right insertion point 0, and some
  time has left insertion point equal to the length of the time variable, the call fails
  with the error for times after the last time.
\<close>

theorem out_of_range_rejection:
  "((select = ''exact'' \<or> select = ''before'') \<and> (\<exists>n\<in>set num. bisect_right nctime n = 0)
      \<longrightarrow> bisection num nctime select = Inl TimesBeforeFirst)
   \<and> ((select = ''after'' \<or> select = ''exact'' \<and> (\<forall>n\<in>set num. bisect_right nctime n \<noteq> 0))
        \<and> (\<exists>n\<in>set num. bisect_left nctime n = length nctime)
      \<longrightarrow> bisection num nctime select = Inl TimesAfterLast)"
  by (auto simp: bisection_def Let_def list_ex_iff)

theorem out_of_range_rejection_witness:
  "(\<exists>n\<in>set [- 1]. bisect_right [0, 1, 2] n = 0)
   \<and> bisection [- 1] [0, 1, 2] ''before'' = Inl TimesBeforeFirst
   \<and> (\<exists>n\<in>set [5]. bisect_left [0, 1, 2] n = length [0, 1, 2 :: real])
   \<and> bisection [5] [0, 1, 2] ''after'' = Inl TimesAfterLast"
proof -
  have r: "bisect_right [0, 1, 2] (- 1) = 0" by code_simp
  have l: "bisect_left [0, 1, 2] 5 = 3" by code_simp
  have "bisection [- 1] [0, 1, 2] ''before'' = Inl TimesBeforeFirst"
    by (rule out_of_range_rejection [THEN conjunct1, rule_format]) (simp add: r)
  moreover have "bisection [5] [0, 1, 2] ''after'' = Inl TimesAfterLast"
    by (rule out_of_range_rejection [THEN conjunct2, rule_format]) (simp add: l)
  ultimately show ?thesis using r l by simp
qed

text \<open>
  The claim as stated fails for a batch with the selection exact that holds a time before
  the first and a time after the last: the second time has left insertion point 3, the
  length of the time variable, and the call fails with the error for times before the
  first time.
\<close>

theorem before_error_first:
  "bisect_left [0, 1, 2] 5 = length [0, 1, 2 :: real]
   \<and> bisection [- 1, 5] [0, 1, 2] ''exact'' = Inl TimesBeforeFirst
   \<and> time2index [- 1, 5] [0, 1, 2] ''exact'' = Inl TimesBeforeFirst"
proof -
  have l: "bisect_left [0, 1, 2] 5 = 3" by code_simp
  have b: "bisection [- 1, 5] [0, 1, 2] ''exact'' = Inl TimesBeforeFirst" by code_simp
  have "time2index [- 1, 5] [0, 1, 2] ''exact'' = Inl TimesBeforeFirst"
    by (simp add: time2index_def series_start_def check_index_def guess_index_def int_trunc_def b)
  with l b show ?thesis by simp
qed

text \<open>
  C10. In the bisection no time outside the range of the time variable is an error but a
  time before the first under the selections exact and before, and a time after the last
  under exact and after. With the selection before and no time of the batch before the
  first, a time above every value gets the last index; with the selection after and no
  time of the batch after the last, a time below every value gets index 0; the selections
  before and after fail on no other batch, and nearest fails on none.
\<close>

theorem out_of_range_clamping:
  assumes k: "k < length num"
  shows "((\<forall>n\<in>set num. bisect_right nctime n \<noteq> 0) \<and> (\<forall>v\<in>set nctime. v < num ! k)
       \<longrightarrow> (\<exists>index. bisection num nctime ''before'' = Inr index
              \<and> index ! k = int (length nctime) - 1))
    \<and> ((\<forall>n\<in>set num. bisect_left nctime n \<noteq> length nctime) \<and> (\<forall>v\<in>set nctime. num ! k < v)
       \<longrightarrow> (\<exists>index. bisection num nctime ''after'' = Inr index \<and> index ! k = 0))
    \<and> (nctime \<noteq> [] \<longrightarrow>
         (isl (bisection num nctime ''before'') \<longleftrightarrow> (\<exists>n\<in>set num. bisect_right nctime n = 0))
       \<and> (isl (bisection num nctime ''after'')
            \<longleftrightarrow> (\<exists>n\<in>set num. bisect_left nctime n = length nctime))
       \<and> \<not> isl (bisection num nctime ''nearest''))"
proof (intro conjI impI)
  assume "(\<forall>n\<in>set num. bisect_right nctime n \<noteq> 0) \<and> (\<forall>v\<in>set nctime. v < num ! k)"
  then show "\<exists>index. bisection num nctime ''before'' = Inr index
      \<and> index ! k = int (length nctime) - 1"
    using before_above_all [OF k] by blast
next
  assume "(\<forall>n\<in>set num. bisect_left nctime n \<noteq> length nctime) \<and> (\<forall>v\<in>set nctime. num ! k < v)"
  then show "\<exists>index. bisection num nctime ''after'' = Inr index \<and> index ! k = 0"
    using after_below_all [OF k] by blast
next
  assume "nctime \<noteq> []"
  then show "isl (bisection num nctime ''before'') \<longleftrightarrow> (\<exists>n\<in>set num. bisect_right nctime n = 0)"
    by (auto simp: bisection_simps)
next
  assume ne: "nctime \<noteq> []"
  show "isl (bisection num nctime ''after'')
      \<longleftrightarrow> (\<exists>n\<in>set num. bisect_left nctime n = length nctime)"
    using ne by (simp add: bisection_simps after_image_iff)
next
  assume "nctime \<noteq> []"
  then show "\<not> isl (bisection num nctime ''nearest'')"
    by (simp add: bisection_simps nearest_values)
qed

theorem out_of_range_clamping_witness:
  "(0 :: nat) < length [30 :: real]
   \<and> bisect_right [0, 6, 12, 18, 24] 30 = 5
   \<and> (\<exists>index. bisection [30] [0, 6, 12, 18, 24] ''before'' = Inr index \<and> index ! 0 = 4)
   \<and> (0 :: nat) < length [- 1 :: real]
   \<and> bisect_left [0, 6, 12, 18, 24] (- 1) = 0
   \<and> (\<exists>index. bisection [- 1] [0, 6, 12, 18, 24] ''after'' = Inr index \<and> index ! 0 = 0)
   \<and> \<not> isl (bisection [- 1, 30] [0, 6, 12, 18, 24] ''nearest'')"
proof -
  have r: "bisect_right [0, 6, 12, 18, 24] 30 = 5" by code_simp
  have l: "bisect_left [0, 6, 12, 18, 24] (- 1) = 0" by code_simp
  have k1: "(0 :: nat) < length [30 :: real]" and k2: "(0 :: nat) < length [- 1 :: real]"
    and k3: "(0 :: nat) < length [- 1, 30 :: real]"
    by simp_all
  have h1: "(\<forall>n\<in>set [30]. bisect_right [0, 6, 12, 18, 24] n \<noteq> 0)
      \<and> (\<forall>v\<in>set [0, 6, 12, 18, 24]. v < [30 :: real] ! 0)"
    by (simp add: r)
  have h2: "(\<forall>n\<in>set [- 1]. bisect_left [0, 6, 12, 18, 24] n \<noteq> length [0, 6, 12, 18, 24 :: real])
      \<and> (\<forall>v\<in>set [0, 6, 12, 18, 24]. [- 1 :: real] ! 0 < v)"
    by (simp add: l)
  have "\<exists>index. bisection [30] [0, 6, 12, 18, 24] ''before'' = Inr index
      \<and> index ! 0 = int (length [0, 6, 12, 18, 24 :: real]) - 1"
    by (rule out_of_range_clamping [OF k1, THEN conjunct1, rule_format]) (rule h1)
  then have b: "\<exists>index. bisection [30] [0, 6, 12, 18, 24] ''before'' = Inr index \<and> index ! 0 = 4"
    by simp
  have a: "\<exists>index. bisection [- 1] [0, 6, 12, 18, 24] ''after'' = Inr index \<and> index ! 0 = 0"
    by (rule out_of_range_clamping [OF k2, THEN conjunct2, THEN conjunct1, rule_format]) (rule h2)
  have n: "\<not> isl (bisection [- 1, 30] [0, 6, 12, 18, 24] ''nearest'')"
    by (rule out_of_range_clamping [OF k3, THEN conjunct2, THEN conjunct2, rule_format,
          THEN conjunct2, THEN conjunct2]) simp
  from k1 k2 r l b a n show ?thesis by (intro conjI)
qed

section \<open>The gap of the mixed calendar\<close>












section \<open>The guessed index\<close>






section \<open>Units\<close>

lemma date2num_jdelta_origin_jd:
  assumes "self_calendar self \<in> set calendars_list"
  shows "date2num_jdelta self date
     = (case origin_jd (self_calendar self) date of
          Inl e \<Rightarrow> Inl e | Inr jd \<Rightarrow> Inr (jd - self_jd0 self))"
proof -
  from assms consider "self_calendar self = ''standard''" | "self_calendar self = ''gregorian''"
    | "self_calendar self = ''proleptic_gregorian''" | "self_calendar self = ''noleap''"
    | "self_calendar self = ''julian''" | "self_calendar self = ''all_leap''"
    | "self_calendar self = ''365_day''" | "self_calendar self = ''366_day''"
    | "self_calendar self = ''360_day''"
    by (auto simp: calendars_list_def)
  then show ?thesis
    by cases (simp_all add: date2num_jdelta_def origin_jd_def Let_def)
qed

lemma date2num_scale:
  assumes "self_units self \<in> set units_list" and "date2num_jdelta self date = Inr jdelta"
  shows "date2num self date
     = Inr (jdelta * spec_unit_factor (self_units self)
            - self_tzoffset self * (spec_unit_factor (self_units self) / 1440))"
proof -
  from assms(1) consider "self_units self = ''days''" | "self_units self = ''hours''"
    | "self_units self = ''minutes''" | "self_units self = ''seconds''"
    | "self_units self = ''day''" | "self_units self = ''hour''"
    | "self_units self = ''minute''" | "self_units self = ''second''"
    | "self_units self = ''milliseconds''" | "self_units self = ''millisecond''"
    | "self_units self = ''microseconds''" | "self_units self = ''microsecond''"
    by (auto simp: units_list_def)
  then show ?thesis
    by cases (simp_all add: date2num_def assms(2) spec_unit_factor_def Let_def)
qed

text \<open>
  C7. For a \<open>utime\<close> object built from recognised units, \<open>date2num\<close> fails where
  the day count of the date fails, and otherwise returns the day count minus that of the
  origin, multiplied by the factor of the units, minus the offset from UTC in minutes
  converted to the units.
\<close>

theorem unit_scaling:
  assumes init: "utime_init (units, tzoffset, origin) calendar = Inr self"
    and units: "units \<in> set units_list"
  shows "origin_jd calendar origin = Inr (self_jd0 self)
     \<and> date2num self date
       = (case origin_jd calendar date of
            Inl e \<Rightarrow> Inl e
          | Inr jd \<Rightarrow> Inr ((jd - self_jd0 self) * spec_unit_factor units
                          - tzoffset * (spec_unit_factor units / 1440)))"
proof -
  from init have cal: "calendar \<in> set calendars_list"
    by (auto simp: utime_init_def split: if_splits)
  from init cal obtain jd0 where jd0: "origin_jd calendar origin = Inr jd0"
    and self: "self = \<lparr>self_calendar = calendar, self_units = units, self_tzoffset = tzoffset,
      self_origin = origin, self_jd0 = jd0\<rparr>"
    by (auto simp: utime_init_def split: sum.splits)
  have fields: "self_calendar self = calendar" "self_units self = units"
    "self_tzoffset self = tzoffset" "self_jd0 self = jd0"
    by (simp_all add: self)
  have jdelta: "date2num_jdelta self date
      = (case origin_jd calendar date of Inl e \<Rightarrow> Inl e | Inr jd \<Rightarrow> Inr (jd - self_jd0 self))"
    using date2num_jdelta_origin_jd [of self date] cal by (simp add: fields)
  have "date2num self date
       = (case origin_jd calendar date of
            Inl e \<Rightarrow> Inl e
          | Inr jd \<Rightarrow> Inr ((jd - self_jd0 self) * spec_unit_factor units
                          - tzoffset * (spec_unit_factor units / 1440)))"
  proof (cases "origin_jd calendar date")
    case (Inl e)
    with jdelta show ?thesis by (simp add: date2num_def)
  next
    case (Inr jd)
    with jdelta have "date2num_jdelta self date = Inr (jd - self_jd0 self)" by simp
    from date2num_scale [OF _ this] units Inr show ?thesis by (simp add: fields)
  qed
  with jd0 show ?thesis by (simp add: fields)
qed

lemma origin_jd_2000: "origin_jd ''proleptic_gregorian''
     \<lparr>year = 2000, month = 1, day = 1, hour = 0, minute = 0, second = 0, microsecond = 0\<rparr>
   = Inr (4903089 / 2)"
  by code_simp

lemma origin_jd_2000_2: "origin_jd ''proleptic_gregorian''
     \<lparr>year = 2000, month = 1, day = 2, hour = 0, minute = 0, second = 0, microsecond = 0\<rparr>
   = Inr (4903091 / 2)"
  by code_simp

theorem unit_scaling_witness:
  "utime_init (''hours'', 60,
      \<lparr>year = 2000, month = 1, day = 1, hour = 0, minute = 0, second = 0, microsecond = 0\<rparr>)
      ''proleptic_gregorian''
     = Inr \<lparr>self_calendar = ''proleptic_gregorian'', self_units = ''hours'', self_tzoffset = 60,
         self_origin =
           \<lparr>year = 2000, month = 1, day = 1, hour = 0, minute = 0, second = 0, microsecond = 0\<rparr>,
         self_jd0 = 4903089 / 2\<rparr>
   \<and> ''hours'' \<in> set units_list
   \<and> date2num
       \<lparr>self_calendar = ''proleptic_gregorian'', self_units = ''hours'', self_tzoffset = 60,
         self_origin =
           \<lparr>year = 2000, month = 1, day = 1, hour = 0, minute = 0, second = 0, microsecond = 0\<rparr>,
         self_jd0 = 4903089 / 2\<rparr>
       \<lparr>year = 2000, month = 1, day = 2, hour = 0, minute = 0, second = 0, microsecond = 0\<rparr>
     = Inr 23"
proof -
  have init: "utime_init (''hours'', 60,
      \<lparr>year = 2000, month = 1, day = 1, hour = 0, minute = 0, second = 0, microsecond = 0\<rparr>)
      ''proleptic_gregorian''
     = Inr \<lparr>self_calendar = ''proleptic_gregorian'', self_units = ''hours'', self_tzoffset = 60,
         self_origin =
           \<lparr>year = 2000, month = 1, day = 1, hour = 0, minute = 0, second = 0, microsecond = 0\<rparr>,
         self_jd0 = 4903089 / 2\<rparr>"
    by (simp add: utime_init_def calendars_list_def origin_jd_2000)
  have units: "''hours'' \<in> set units_list" by (simp add: units_list_def)
  have "date2num
       \<lparr>self_calendar = ''proleptic_gregorian'', self_units = ''hours'', self_tzoffset = 60,
         self_origin =
           \<lparr>year = 2000, month = 1, day = 1, hour = 0, minute = 0, second = 0, microsecond = 0\<rparr>,
         self_jd0 = 4903089 / 2\<rparr>
       \<lparr>year = 2000, month = 1, day = 2, hour = 0, minute = 0, second = 0, microsecond = 0\<rparr>
     = Inr 23"
    by (simp add: unit_scaling [OF init units, THEN conjunct2] origin_jd_2000_2 spec_unit_factor_def)
  with init units show ?thesis by (intro conjI)
qed

end
